theory Spec2Isabelle
  imports Main
begin

section \<open>Python values used by \<open>main.py\<close>\<close>

text \<open>
  A Python \<open>str\<close> is a sequence of Unicode code points; slicing, \<open>strip\<close> and the
  regular-expression engine all count code points. The Arabic literals of the source do
  not fit into 8-bit characters, so a string is modelled as the list of its code points.
  \<open>ascii\<close> embeds an ASCII literal.
\<close>

type_synonym ustr = "nat list"

definition ascii :: "string \<Rightarrow> ustr" where
  "ascii s = map of_char s"

text \<open>
  \<open>str.isspace\<close> on one code point. The same set is the whitespace class of a
  \<open>str\<close> pattern of module \<open>re\<close>, and what \<open>str.strip()\<close> removes.
\<close>

definition isspace :: "nat \<Rightarrow> bool" where
  "isspace c \<longleftrightarrow>
     (9 \<le> c \<and> c \<le> 13) \<or> (28 \<le> c \<and> c \<le> 32) \<or> c = 133 \<or> c = 160 \<or> c = 5760 \<or>
     (8192 \<le> c \<and> c \<le> 8202) \<or> c = 8232 \<or> c = 8233 \<or> c = 8239 \<or> c = 8287 \<or> c = 12288"

definition strip :: "ustr \<Rightarrow> ustr" where
  "strip s = rev (dropWhile isspace (rev (dropWhile isspace s)))"

definition startswith :: "ustr \<Rightarrow> ustr \<Rightarrow> bool" where
  "startswith s p \<longleftrightarrow> take (length p) s = p"

text \<open>\<open>sep.join(xs)\<close> and \<open>s.split(sep)\<close> for a one-character separator.\<close>

fun join :: "ustr \<Rightarrow> ustr list \<Rightarrow> ustr" where
  "join sep [] = []"
| "join sep [x] = x"
| "join sep (x # y # ys) = x @ sep @ join sep (y # ys)"

fun split_on :: "nat \<Rightarrow> ustr \<Rightarrow> ustr list" where
  "split_on d [] = [[]]"
| "split_on d (c # cs) =
     (if c = d then [] # split_on d cs
      else (case split_on d cs of l # ls \<Rightarrow> (c # l) # ls | [] \<Rightarrow> [[c]]))"

text \<open>
  JSON values as \<open>Request.json()\<close> and \<open>Response.json()\<close> deliver them. \<open>json.loads\<close>
  accepts the literals \<open>NaN\<close>, \<open>Infinity\<close> and \<open>-Infinity\<close>; a finite float is kept as
  a mantissa and an exponent, since no arithmetic is done on it.
\<close>

datatype float_value =
    FiniteFloat int int
  | NaN
  | Infinity
  | NegInfinity

datatype json =
    JNull
  | JBool bool
  | JInt int
  | JFloat float_value
  | JStr ustr
  | JList "json list"
  | JDict "(ustr \<times> json) list"

text \<open>
  Exceptions are values. \<open>HTTPStatusError\<close> is what \<open>raise_for_status\<close> raises;
  \<open>LibraryError\<close> stands for any other \<open>Exception\<close> raised inside a library call
  (transport failure, HTML or JSON parse failure), carrying its message; the remaining
  ones are raised by the handler's own operations on JSON values and by the rendering
  of the response. All of them are subclasses of \<open>Exception\<close>; cancellation of a
  coroutine is outside the model.
\<close>

datatype exn =
    HTTPStatusError nat
  | LibraryError ustr
  | AttributeError
  | KeyError
  | IndexError
  | TypeError
  | ValueError
  | UnicodeEncodeError

section \<open>Configuration, environment and observable events\<close>

record config =
  OPENAI_API_KEY :: ustr
  OPENAI_BASE_URL :: ustr
  OPENAI_MODEL :: ustr

record message =
  role :: ustr
  content :: ustr

record http_response =
  status_code :: nat
  body_text :: ustr
  body_json :: "exn + json"

text \<open>
  Everything outside the process is a parameter: the two HTTP operations, the readability,
  BeautifulSoup and markdownify calls of \<open>fetch_url\<close>, and \<open>str(e)\<close> for an exception.
  Each of them either returns or raises.
\<close>

record env =
  http_get :: "ustr \<Rightarrow> exn + http_response"
  http_post :: "ustr \<Rightarrow> ustr \<Rightarrow> ustr \<Rightarrow> message list \<Rightarrow> exn + http_response"
  doc_short_title :: "ustr \<Rightarrow> exn + ustr option"
  doc_summary :: "ustr \<Rightarrow> exn + ustr"
  soup_get_text :: "ustr \<Rightarrow> exn + ustr"
  markdownify :: "ustr \<Rightarrow> exn + ustr"
  exn_text :: "exn \<Rightarrow> ustr"

text \<open>
  The trace of a request: calls of the two helper coroutines and the HTTP requests they
  issue. \<open>HttpPost\<close> carries the URL, the Authorization header value, the model and the
  messages of the payload.
\<close>

datatype event =
    FetchUrl ustr
  | HttpGet ustr
  | CallOpenAI "message list"
  | HttpPost ustr ustr ustr "message list"

record meta_info =
  m_urls :: "ustr list"
  m_mode :: json
  m_provider :: ustr

record response =
  ok :: bool
  answer :: ustr
  meta :: "meta_info option"

section \<open>Constants of the source\<close>

text \<open>Line 35: the triple-quoted literal of \<open>SYSTEM_PROMPT\<close>, before \<open>.strip()\<close>.\<close>

definition SYSTEM_PROMPT_literal :: ustr where
  "SYSTEM_PROMPT_literal =
   [10, 32, 32, 32, 32, 1571, 1606, 1578, 32, 34, 66, 97, 115, 115, 97, 109, 32, 85, 108, 116, 114, 97, 45, 65, 110, 115, 119, 101, 114, 34, 32, 8212, 32, 1605, 1587, 1575, 1593, 1583, 32, 1593, 1585, 1576, 1610, 47, 1573, 1606, 1580, 1604, 1610, 1586, 1610, 32, 1582, 1575, 1585, 1602, 58, 10,
    32, 32, 32, 32, 45, 32, 1578, 1601, 1607, 1605, 32, 1575, 1604, 1587, 1572, 1575, 1604, 32, 1605, 1607, 1605, 1575, 32, 1603, 1575, 1606, 32, 1605, 1582, 1578, 1589, 1585, 1611, 1575, 46, 10,
    32, 32, 32, 32, 45, 32, 1578, 1580, 1610, 1576, 32, 1576, 1573, 1610, 1580, 1575, 1586, 32, 1571, 1608, 1604, 1575, 1611, 1548, 32, 1579, 1605, 32, 1578, 1601, 1575, 1589, 1610, 1604, 32, 1593, 1605, 1604, 1610, 1577, 32, 40, 1582, 1591, 1608, 1575, 1578, 47, 1571, 1605, 1579, 1604, 1577, 47, 1602, 1608, 1575, 1574, 1605, 41, 32, 1593, 1606, 1583, 32, 1575, 1604, 1581, 1575, 1580, 1577, 46, 10,
    32, 32, 32, 32, 45, 32, 1578, 1604, 1582, 1589, 32, 1575, 1604, 1606, 1589, 1608, 1589, 32, 1576, 1588, 1603, 1604, 32, 1583, 1602, 1610, 1602, 1548, 32, 1608, 1578, 1587, 1578, 1582, 1585, 1580, 32, 1575, 1604, 1606, 1602, 1575, 1591, 1548, 32, 1608, 1575, 1604, 1578, 1593, 1604, 1610, 1605, 1575, 1578, 46, 10,
    32, 32, 32, 32, 45, 32, 1593, 1606, 1583, 32, 1608, 1580, 1608, 1583, 32, 1585, 1608, 1575, 1576, 1591, 58, 32, 1578, 1602, 1585, 1572, 1607, 1575, 32, 1571, 1608, 1604, 1611, 1575, 32, 1608, 1578, 1587, 1578, 1582, 1604, 1589, 32, 1571, 1607, 1605, 32, 1605, 1575, 32, 1601, 1610, 1607, 1575, 32, 1602, 1576, 1604, 32, 1575, 1604, 1573, 1580, 1575, 1576, 1577, 46, 10,
    32, 32, 32, 32, 45, 32, 1573, 1606, 32, 1591, 1604, 1576, 32, 1575, 1604, 1605, 1587, 1578, 1582, 1583, 1605, 32, 1603, 1608, 1583, 1611, 1575, 58, 32, 1571, 1593, 1591, 1616, 32, 1603, 1608, 1583, 1611, 1575, 32, 1606, 1592, 1610, 1601, 1611, 1575, 32, 1580, 1575, 1607, 1586, 1611, 1575, 32, 1604, 1604, 1578, 1606, 1601, 1610, 1584, 32, 1605, 1593, 32, 1588, 1585, 1581, 32, 1602, 1589, 1610, 1585, 46, 10,
    32, 32, 32, 32, 45, 32, 1603, 1606, 32, 1589, 1585, 1610, 1581, 1611, 1575, 32, 1593, 1606, 1583, 32, 1593, 1583, 1605, 32, 1575, 1604, 1610, 1602, 1610, 1606, 1548, 32, 1608, 1575, 1602, 1578, 1585, 1581, 32, 1591, 1585, 1602, 32, 1575, 1604, 1578, 1581, 1602, 1602, 46, 10,
    32, 32, 32, 32, 45, 32, 1575, 1604, 1571, 1587, 1604, 1608, 1576, 58, 32, 1576, 1587, 1610, 1591, 1548, 32, 1593, 1605, 1604, 1610, 1548, 32, 1576, 1583, 1608, 1606, 32, 1586, 1582, 1585, 1601, 1577, 46, 10,
    32, 32, 32, 32]"

definition SYSTEM_PROMPT :: ustr where
  "SYSTEM_PROMPT = strip SYSTEM_PROMPT_literal"

text \<open>Line 69: the placeholder of a failed fetch is this prefix, \<open>str(e)\<close> and \<open>)\<close>.\<close>

definition fetch_error_prefix :: ustr where
  "fetch_error_prefix =
   [40, 1578, 1593, 1584, 1585, 32, 1580, 1604, 1576, 32, 1575, 1604, 1585, 1575, 1576, 1591, 58, 32]"

text \<open>
  Lines 76 to 78: the three literal parts of the f-string of the keyless answer, around
  \<open>user[:500]\<close> and \<open>user[:200]\<close>, with the escapes \<open>\n\<close> resolved.
\<close>

definition plan_head :: ustr where
  "plan_head =
   [10, 32, 32, 32, 32, 32, 32, 32, 32, 40, 1578, 1588, 1594, 1610, 1604, 32, 1605, 1576, 1587, 1591, 32, 1576, 1583, 1608, 1606, 32, 65, 80, 73, 41, 10,
    10, 32, 32, 32, 32, 32, 32, 32, 32, 1601, 1607, 1605, 1610, 32, 1604, 1604, 1587, 1572, 1575, 1604, 58, 10,
    45, 32]"

definition plan_mid :: ustr where
  "plan_mid =
   [10, 10, 1582, 1591, 1577, 32, 1573, 1580, 1575, 1576, 1577, 32, 1593, 1575, 1605, 1577, 58, 10,
    49, 41, 32, 1578, 1581, 1583, 1610, 1583, 32, 1575, 1604, 1605, 1591, 1604, 1608, 1576, 32, 1576, 1583, 1602, 1577, 46, 10,
    50, 41, 32, 1593, 1585, 1590, 32, 1575, 1604, 1606, 1602, 1575, 1591, 32, 1575, 1604, 1571, 1587, 1575, 1587, 1610, 1577, 32, 1576, 1573, 1610, 1580, 1575, 1586, 46, 10,
    51, 41, 32, 1573, 1593, 1591, 1575, 1569, 32, 1582, 1591, 1608, 1575, 1578, 32, 1593, 1605, 1604, 1610, 1577, 32, 1602, 1575, 1576, 1604, 1577, 32, 1604, 1604, 1578, 1606, 1601, 1610, 1584, 46, 10,
    52, 41, 32, 1575, 1602, 1578, 1585, 1575, 1581, 32, 1605, 1589, 1575, 1583, 1585, 32, 1604, 1604, 1578, 1581, 1602, 1602, 46, 10,
    10, 1575, 1604, 1573, 1580, 1575, 1576, 1577, 32, 1575, 1604, 1605, 1582, 1578, 1589, 1585, 1577, 58, 10,
    45, 32]"

definition plan_tail :: ustr where
  "plan_tail =
   [32, 8212, 32, 1610, 1578, 1591, 1604, 1576, 32, 1578, 1601, 1589, 1610, 1604, 1575, 1611, 32, 1581, 1587, 1576, 32, 1575, 1604, 1587, 1610, 1575, 1602, 46, 10,
    32, 32, 32, 32, 32, 32, 32, 32]"

text \<open>Line 103: the answer to an empty query.\<close>

definition prompt_for_input :: ustr where
  "prompt_for_input = [1575, 1603, 1578, 1576, 32, 1587, 1572, 1575, 1604, 1603, 8230]"

text \<open>Line 121: the instruction in front of the joined contexts.\<close>

definition context_instruction :: ustr where
  "context_instruction =
   [1575, 1604, 1587, 1610, 1575, 1602, 32, 1575, 1604, 1578, 1575, 1604, 1610, 32, 1580, 1615, 1605, 1616, 1593, 32, 1605, 1606, 32, 1575, 1604, 1585, 1608, 1575, 1576, 1591, 32, 1575, 1604, 1578, 1610, 32, 1571, 1585, 1587, 1604, 1607, 1575, 32, 1575, 1604, 1605, 1587, 1578, 1582, 1583, 1605, 46, 32, 1604, 1582, 1589, 1607, 32, 1579, 1605, 32, 1571, 1580, 1576, 32, 1576, 1583, 1602, 1577, 32, 1593, 1604, 1609, 32, 1587, 1572, 1575, 1604, 32, 1575, 1604, 1605, 1587, 1578, 1582, 1583, 1605, 46, 10, 10]"

text \<open>Lines 127 and 129: the instructions wrapped around the query.\<close>

definition summarize_instruction :: ustr where
  "summarize_instruction =
   [1604, 1582, 1589, 32, 1576, 1583, 1602, 1577, 32, 1608, 1576, 1606, 1602, 1575, 1591, 32, 1608, 1575, 1590, 1581, 1577, 58, 10, 10]"

definition code_instruction :: ustr where
  "code_instruction =
   [1575, 1603, 1578, 1576, 32, 1603, 1608, 1583, 1611, 1575, 32, 1606, 1592, 1610, 1601, 1611, 1575, 32, 1605, 1593, 32, 1588, 1585, 1581, 32, 1605, 1582, 1578, 1589, 1585, 32, 1604, 1581, 1604, 32, 1575, 1604, 1605, 1591, 1604, 1608, 1576, 58, 10, 10]"

section \<open>Link extraction: \<open>URL_RE.findall\<close>\<close>

text \<open>
  \<open>URL_RE = re.compile(r"https?://\S+")\<close>. \<open>match_url s\<close> is the match of the pattern
  anchored at the start of \<open>s\<close>: the scheme, then the longest non-empty run of
  non-whitespace. \<open>findall\<close> scans from left to right and resumes after each match.
\<close>

definition match_url :: "ustr \<Rightarrow> ustr option" where
  "match_url s =
     (let n = (if startswith s (ascii ''https://'') then Some 8
               else if startswith s (ascii ''http://'') then Some 7
               else None)
      in case n of
           None \<Rightarrow> None
         | Some k \<Rightarrow>
             (let rest = takeWhile (\<lambda>c. \<not> isspace c) (drop k s)
              in if rest = [] then None else Some (take k s @ rest)))"

fun findall :: "ustr \<Rightarrow> ustr list" where
  "findall [] = []"
| "findall (c # cs) =
     (case match_url (c # cs) of
        Some m \<Rightarrow> m # findall (drop (length m - 1) cs)
      | None \<Rightarrow> findall cs)"

section \<open>\<open>textwrap.dedent\<close>\<close>

text \<open>
  The standard library's \<open>dedent\<close> (CPython up to 3.13), step by step: lines made
  only of spaces and tabs are emptied; the indents of the lines with content are
  collected; the margin is their common prefix, found by the loop's three branches;
  a non-empty margin is removed from the start of every line that has it.
\<close>

definition sp_or_tab :: "nat \<Rightarrow> bool" where
  "sp_or_tab c \<longleftrightarrow> c = 32 \<or> c = 9"

definition ws_only :: "ustr \<Rightarrow> bool" where
  "ws_only l \<longleftrightarrow> l \<noteq> [] \<and> list_all sp_or_tab l"

definition blank_ws_lines :: "ustr \<Rightarrow> ustr" where
  "blank_ws_lines t = join [10] (map (\<lambda>l. if ws_only l then [] else l) (split_on 10 t))"

definition indents :: "ustr \<Rightarrow> ustr list" where
  "indents t =
     map (takeWhile sp_or_tab) (filter (\<lambda>l. dropWhile sp_or_tab l \<noteq> []) (split_on 10 t))"

fun cut_at_diff :: "ustr \<Rightarrow> ustr \<Rightarrow> ustr" where
  "cut_at_diff (x # xs) (y # ys) = (if x \<noteq> y then [] else x # cut_at_diff xs ys)"
| "cut_at_diff xs ys = xs"

definition margin_step :: "ustr option \<Rightarrow> ustr \<Rightarrow> ustr option" where
  "margin_step margin indent =
     (case margin of
        None \<Rightarrow> Some indent
      | Some m \<Rightarrow>
          if startswith indent m then Some m
          else if startswith m indent then Some indent
          else Some (cut_at_diff m indent))"

definition remove_margin :: "ustr \<Rightarrow> ustr \<Rightarrow> ustr" where
  "remove_margin m t =
     join [10] (map (\<lambda>l. if startswith l m then drop (length m) l else l) (split_on 10 t))"

definition dedent :: "ustr \<Rightarrow> ustr" where
  "dedent t =
     (let t1 = blank_ws_lines t;
          margin = foldl margin_step None (indents t1)
      in case margin of
           None \<Rightarrow> t1
         | Some m \<Rightarrow> if m \<noteq> [] then remove_margin m t1 else t1)"

section \<open>The article fetcher \<open>fetch_url\<close>\<close>

text \<open>httpx: \<open>Response.is_success\<close> and \<open>Response.raise_for_status()\<close>.\<close>

definition is_success :: "http_response \<Rightarrow> bool" where
  "is_success r \<longleftrightarrow> 200 \<le> status_code r \<and> status_code r \<le> 299"

definition raise_for_status :: "http_response \<Rightarrow> exn + unit" where
  "raise_for_status r =
     (if is_success r then Inr () else Inl (HTTPStatusError (status_code r)))"

text \<open>Lines 52 to 67, the body of the \<open>try\<close>: the first step that raises ends it.\<close>

definition fetch_body :: "env \<Rightarrow> ustr \<Rightarrow> exn + ustr" where
  "fetch_body env url =
     (case http_get env url of Inl e \<Rightarrow> Inl e | Inr r \<Rightarrow>
      case raise_for_status r of Inl e \<Rightarrow> Inl e | Inr u \<Rightarrow>
      let html = body_text r in
      case doc_short_title env html of Inl e \<Rightarrow> Inl e | Inr t \<Rightarrow>
      let title = (case t of None \<Rightarrow> [] | Some s \<Rightarrow> s) in
      case doc_summary env html of Inl e \<Rightarrow> Inl e | Inr content_html \<Rightarrow>
      case soup_get_text env content_html of Inl e \<Rightarrow> Inl e | Inr txt \<Rightarrow>
      case markdownify env txt of Inl e \<Rightarrow> Inl e | Inr content_md \<Rightarrow>
      Inr (ascii ''# '' @ title @ [10, 10] @ strip content_md))"

text \<open>
  Lines 50 to 69: \<open>except Exception as e\<close> turns whatever the body raised into the
  placeholder. The result is still typed as a value or an exception, so that "never
  raises" is a statement to prove.
\<close>

definition fetch_url :: "env \<Rightarrow> ustr \<Rightarrow> (exn + ustr) \<times> event list" where
  "fetch_url env url =
     ((case fetch_body env url of
         Inr s \<Rightarrow> Inr s
       | Inl e \<Rightarrow> Inr (fetch_error_prefix @ exn_text env e @ ascii '')'')),
      [FetchUrl url, HttpGet url])"

text \<open>
  \<open>asyncio.gather\<close>: every task runs; the results come back in the order of the
  tasks; an exception of a task propagates.
\<close>

fun gather :: "((exn + 'a) \<times> event list) list \<Rightarrow> (exn + 'a list) \<times> event list" where
  "gather [] = (Inr [], [])"
| "gather ((r, tr) # ts) =
     (case gather ts of (rs, tr') \<Rightarrow>
        ((case r of
            Inl e \<Rightarrow> Inl e
          | Inr x \<Rightarrow> (case rs of Inl e \<Rightarrow> Inl e | Inr xs \<Rightarrow> Inr (x # xs))),
         tr @ tr'))"

section \<open>The completion client \<open>call_openai\<close>\<close>

text \<open>Subscripts and \<open>.strip()\<close> on a JSON value, with the exceptions Python raises.\<close>

fun subscript_key :: "json \<Rightarrow> ustr \<Rightarrow> exn + json" where
  "subscript_key (JDict kvs) k = (case map_of kvs k of None \<Rightarrow> Inl KeyError | Some v \<Rightarrow> Inr v)"
| "subscript_key v k = Inl TypeError"

fun subscript_zero :: "json \<Rightarrow> exn + json" where
  "subscript_zero (JList []) = Inl IndexError"
| "subscript_zero (JList (v # vs)) = Inr v"
| "subscript_zero (JStr []) = Inl IndexError"
| "subscript_zero (JStr (c # cs)) = Inr (JStr [c])"
| "subscript_zero (JDict kvs) = Inl KeyError"
| "subscript_zero v = Inl TypeError"

fun strip_json :: "json \<Rightarrow> exn + ustr" where
  "strip_json (JStr s) = Inr (strip s)"
| "strip_json v = Inl AttributeError"

text \<open>Line 93: \<open>data["choices"][0]["message"]["content"].strip()\<close>.\<close>

definition extract_content :: "json \<Rightarrow> exn + ustr" where
  "extract_content data =
     (case subscript_key data (ascii ''choices'') of Inl e \<Rightarrow> Inl e | Inr choices \<Rightarrow>
      case subscript_zero choices of Inl e \<Rightarrow> Inl e | Inr choice \<Rightarrow>
      case subscript_key choice (ascii ''message'') of Inl e \<Rightarrow> Inl e | Inr msg \<Rightarrow>
      case subscript_key msg (ascii ''content'') of Inl e \<Rightarrow> Inl e | Inr c \<Rightarrow>
      strip_json c)"

text \<open>Line 75: the content of the first message whose role is \<open>user\<close>, or the empty string.\<close>

definition first_user_content :: "message list \<Rightarrow> ustr" where
  "first_user_content messages =
     (case filter (\<lambda>m. role m = ascii ''user'') messages of [] \<Rightarrow> [] | m # ms \<Rightarrow> content m)"

text \<open>Lines 76 to 79: the keyless answer.\<close>

definition fallback_plan :: "ustr \<Rightarrow> ustr" where
  "fallback_plan user =
     strip (dedent (plan_head @ take 500 user @ plan_mid @ take 200 user @ plan_tail))"

text \<open>
  Lines 71 to 93. The payload's \<open>temperature\<close> and \<open>top_p\<close> are constants and are
  left out of the event.
\<close>

definition call_openai :: "config \<Rightarrow> env \<Rightarrow> message list \<Rightarrow> (exn + ustr) \<times> event list" where
  "call_openai cfg env messages =
     (if OPENAI_API_KEY cfg = [] then
        (Inr (fallback_plan (first_user_content messages)), [CallOpenAI messages])
      else
        (let url = OPENAI_BASE_URL cfg @ ascii ''/chat/completions'';
             auth = ascii ''Bearer '' @ OPENAI_API_KEY cfg
         in ((case http_post env url auth (OPENAI_MODEL cfg) messages of Inl e \<Rightarrow> Inl e | Inr r \<Rightarrow>
              case raise_for_status r of Inl e \<Rightarrow> Inl e | Inr u \<Rightarrow>
              case body_json r of Inl e \<Rightarrow> Inl e | Inr data \<Rightarrow>
              extract_content data),
             [CallOpenAI messages, HttpPost url auth (OPENAI_MODEL cfg) messages])))"

section \<open>The request handler \<open>ask\<close>\<close>

text \<open>\<open>body.get(key, default)\<close>; a body that is not a JSON object has no \<open>get\<close>.\<close>

fun body_get :: "json \<Rightarrow> ustr \<Rightarrow> json \<Rightarrow> exn + json" where
  "body_get (JDict kvs) k d = (case map_of kvs k of None \<Rightarrow> Inr d | Some v \<Rightarrow> Inr v)"
| "body_get v k d = Inl AttributeError"

text \<open>
  Lines 103 and 135: \<open>JSONResponse(content)\<close>. Starlette renders the body in the
  constructor, as \<open>json.dumps(content, ensure_ascii=False, allow_nan=False)\<close> followed by
  \<open>.encode("utf-8")\<close>. The first raises \<open>ValueError\<close> on a float that is not finite, the
  second raises \<open>UnicodeEncodeError\<close> on a lone surrogate (U+D800 to U+DFFF) in any
  string of the content, the keys of objects included.
\<close>

definition surrogate :: "nat \<Rightarrow> bool" where
  "surrogate c \<longleftrightarrow> 55296 \<le> c \<and> c \<le> 57343"

definition utf8_encodable :: "ustr \<Rightarrow> bool" where
  "utf8_encodable s \<longleftrightarrow> list_all (\<lambda>c. \<not> surrogate c) s"

fun finite_float :: "float_value \<Rightarrow> bool" where
  "finite_float (FiniteFloat m e) = True"
| "finite_float x = False"

primrec finite_json :: "json \<Rightarrow> bool" where
  "finite_json JNull = True"
| "finite_json (JBool b) = True"
| "finite_json (JInt i) = True"
| "finite_json (JFloat x) = finite_float x"
| "finite_json (JStr s) = True"
| "finite_json (JList vs) = list_all id (map finite_json vs)"
| "finite_json (JDict kvs) = list_all snd (map (map_prod id finite_json) kvs)"

primrec json_encodable :: "json \<Rightarrow> bool" where
  "json_encodable JNull = True"
| "json_encodable (JBool b) = True"
| "json_encodable (JInt i) = True"
| "json_encodable (JFloat x) = True"
| "json_encodable (JStr s) = utf8_encodable s"
| "json_encodable (JList vs) = list_all id (map json_encodable vs)"
| "json_encodable (JDict kvs) =
     (list_all utf8_encodable (map fst kvs) \<and>
      list_all snd (map (map_prod id json_encodable) kvs))"

definition JSONResponse :: "response \<Rightarrow> exn + response" where
  "JSONResponse c =
     (if \<not> (case meta c of None \<Rightarrow> True | Some m \<Rightarrow> finite_json (m_mode m)) then
        Inl ValueError
      else if \<not> (utf8_encodable (answer c) \<and>
                 (case meta c of
                    None \<Rightarrow> True
                  | Some m \<Rightarrow> list_all utf8_encodable (m_urls m) \<and> json_encodable (m_mode m) \<and>
                      utf8_encodable (m_provider m))) then
        Inl UnicodeEncodeError
      else Inr c)"

text \<open>Lines 114 to 131: the prompt.\<close>

definition build_messages :: "ustr list \<Rightarrow> json \<Rightarrow> ustr \<Rightarrow> message list" where
  "build_messages gathered_contexts md query =
     [\<lparr>role = ascii ''system'', content = SYSTEM_PROMPT\<rparr>]
     @ (if gathered_contexts \<noteq> [] then
          [\<lparr>role = ascii ''system'',
            content = context_instruction @ join [10, 10] gathered_contexts\<rparr>]
        else [])
     @ (if md = JStr (ascii ''summarize'') then
          [\<lparr>role = ascii ''user'', content = summarize_instruction @ query\<rparr>]
        else if md = JStr (ascii ''code'') then
          [\<lparr>role = ascii ''user'', content = code_instruction @ query\<rparr>]
        else
          [\<lparr>role = ascii ''user'', content = query\<rparr>])"

text \<open>
  Lines 97 to 143. The argument is the parsed request body. The result is the content of
  the \<open>JSONResponse\<close>, or the exception that leaves the handler (the rendering of the
  response included), together with the trace.
\<close>

definition ask :: "config \<Rightarrow> env \<Rightarrow> json \<Rightarrow> (exn + response) \<times> event list" where
  "ask cfg env body =
     (case body_get body (ascii ''query'') (JStr []) of Inl e \<Rightarrow> (Inl e, []) | Inr qv \<Rightarrow>
      case strip_json qv of Inl e \<Rightarrow> (Inl e, []) | Inr query \<Rightarrow>
      case body_get body (ascii ''mode'') (JStr (ascii ''auto'')) of Inl e \<Rightarrow> (Inl e, []) | Inr md \<Rightarrow>
      if query = [] then
        (JSONResponse \<lparr>ok = True, answer = prompt_for_input, meta = None\<rparr>, [])
      else
        (let urls = findall query;
             fetched = (if urls \<noteq> [] then gather (map (fetch_url env) (take 3 urls))
                        else (Inr [], []))
         in case fst fetched of Inl e \<Rightarrow> (Inl e, snd fetched) | Inr gathered_contexts \<Rightarrow>
            (let messages = build_messages gathered_contexts md query;
                 called = call_openai cfg env messages
             in case fst called of
                  Inl e \<Rightarrow> (Inl e, snd fetched @ snd called)
                | Inr a \<Rightarrow>
                    (JSONResponse
                       \<lparr>ok = True, answer = a,
                        meta = Some \<lparr>m_urls = urls, m_mode = md,
                                     m_provider = (if OPENAI_API_KEY cfg \<noteq> []
                                                   then ascii ''openai-compatible''
                                                   else ascii ''fallback-local'')\<rparr>\<rparr>,
                     snd fetched @ snd called))))"

section \<open>Notions used to state the properties\<close>

text \<open>What \<open>fetch_url\<close> hands back for a URL: the article text, or the placeholder.\<close>

definition fetched_context :: "env \<Rightarrow> ustr \<Rightarrow> ustr" where
  "fetched_context env url =
     (case fetch_body env url of
        Inr s \<Rightarrow> s
      | Inl e \<Rightarrow> fetch_error_prefix @ exn_text env e @ ascii '')'')"

text \<open>\<open>body.get("mode", "auto")\<close> on the fields of the request body.\<close>

definition mode_of :: "(ustr \<times> json) list \<Rightarrow> json" where
  "mode_of kvs =
     (case map_of kvs (ascii ''mode'') of None \<Rightarrow> JStr (ascii ''auto'') | Some v \<Rightarrow> v)"

text \<open>
  A text contains a URL-like substring when the pattern matches at some position of it.
\<close>

definition contains_url :: "ustr \<Rightarrow> bool" where
  "contains_url s \<longleftrightarrow> list_ex (\<lambda>i. match_url (drop i s) \<noteq> None) [0..<length s]"

text \<open>Projections of a trace: one per kind of event.\<close>

fun fetch_calls :: "event list \<Rightarrow> ustr list" where
  "fetch_calls [] = []"
| "fetch_calls (FetchUrl u # tr) = u # fetch_calls tr"
| "fetch_calls (ev # tr) = fetch_calls tr"

fun http_gets :: "event list \<Rightarrow> ustr list" where
  "http_gets [] = []"
| "http_gets (HttpGet u # tr) = u # http_gets tr"
| "http_gets (ev # tr) = http_gets tr"

fun completion_calls :: "event list \<Rightarrow> message list list" where
  "completion_calls [] = []"
| "completion_calls (CallOpenAI ms # tr) = ms # completion_calls tr"
| "completion_calls (ev # tr) = completion_calls tr"

fun http_posts :: "event list \<Rightarrow> event list" where
  "http_posts [] = []"
| "http_posts (HttpPost u a m ms # tr) = HttpPost u a m ms # http_posts tr"
| "http_posts (ev # tr) = http_posts tr"





section \<open>Sample configurations, environments and requests\<close>

definition keyless_config :: config where
  "keyless_config =
     \<lparr>OPENAI_API_KEY = [], OPENAI_BASE_URL = ascii ''https://api.openai.com/v1'',
      OPENAI_MODEL = ascii ''gpt-4o-mini''\<rparr>"

definition keyed_config :: config where
  "keyed_config =
     \<lparr>OPENAI_API_KEY = ascii ''sk-test'', OPENAI_BASE_URL = ascii ''https://api.openai.com/v1'',
      OPENAI_MODEL = ascii ''gpt-4o-mini''\<rparr>"

fun sample_exn_text :: "exn \<Rightarrow> ustr" where
  "sample_exn_text (LibraryError s) = s"
| "sample_exn_text (HTTPStatusError n) = ascii ''HTTPStatusError''"
| "sample_exn_text e = ascii ''error''"

text \<open>No network: every request ends in a transport failure.\<close>

definition offline_env :: env where
  "offline_env =
     \<lparr>http_get = (\<lambda>u. Inl (LibraryError (ascii ''ConnectError''))),
      http_post = (\<lambda>u a m ms. Inl (LibraryError (ascii ''ConnectError''))),
      doc_short_title = (\<lambda>h. Inr None),
      doc_summary = (\<lambda>h. Inr h),
      soup_get_text = (\<lambda>h. Inr h),
      markdownify = (\<lambda>h. Inr h),
      exn_text = sample_exn_text\<rparr>"

text \<open>Servers that answer every request with an error status.\<close>

definition refusing_env :: env where
  "refusing_env =
     \<lparr>http_get = (\<lambda>u. Inr \<lparr>status_code = 404, body_text = [], body_json = Inr JNull\<rparr>),
      http_post = (\<lambda>u a m ms. Inr \<lparr>status_code = 500, body_text = [], body_json = Inr JNull\<rparr>),
      doc_short_title = (\<lambda>h. Inr None),
      doc_summary = (\<lambda>h. Inr h),
      soup_get_text = (\<lambda>h. Inr h),
      markdownify = (\<lambda>h. Inr h),
      exn_text = sample_exn_text\<rparr>"

text \<open>A server that delivers a page the readability step cannot parse.\<close>

definition garbled_env :: env where
  "garbled_env =
     \<lparr>http_get = (\<lambda>u. Inr \<lparr>status_code = 200, body_text = ascii ''<<'', body_json = Inr JNull\<rparr>),
      http_post = (\<lambda>u a m ms. Inr \<lparr>status_code = 200, body_text = [], body_json = Inr JNull\<rparr>),
      doc_short_title = (\<lambda>h. Inr None),
      doc_summary = (\<lambda>h. Inl (LibraryError (ascii ''Unparseable''))),
      soup_get_text = (\<lambda>h. Inr h),
      markdownify = (\<lambda>h. Inr h),
      exn_text = sample_exn_text\<rparr>"

definition one_link_query :: ustr where
  "one_link_query = ascii '' see http://x.y ''"

definition four_links_query :: ustr where
  "four_links_query = ascii ''http://a http://b http://c http://d''"

definition plain_query :: ustr where
  "plain_query = ascii '' hello world ''"




section \<open>Auxiliary facts\<close>

lemma strip_all_space: "list_all isspace q \<Longrightarrow> strip q = []"
  by (auto simp: strip_def list_all_iff dest: set_dropWhileD)

lemma dropWhile_rev_dropWhile_hd:
  "dropWhile P (rev (dropWhile P (rev t))) = rev (dropWhile P (rev t))" if "t = [] \<or> \<not> P (hd t)"
  by (metis dropWhile_eq_self_iff dropWhile_last hd_rev list.set_sel(1)
    rev.simps(1) rev_rev_ident set_rev that)

lemma strip_idem: "strip (strip q) = strip q"
  by (metis dropWhile_eq_self_iff dropWhile_idem dropWhile_rev_dropWhile_hd
    rev_rev_ident strip_def)

lemma strip_hd: "strip q \<noteq> [] \<Longrightarrow> \<not> isspace (hd (strip q))"
  by (metis dropWhile_eq_self_iff dropWhile_idem dropWhile_rev_dropWhile_hd
    strip_def)

lemma strip_last: "strip q \<noteq> [] \<Longrightarrow> \<not> isspace (last (strip q))"
  by (metis fold_Cons_rev hd_dropWhile hd_rev rev_conv_fold
    rev_eq_append_conv rev_swap strip_def)

lemma fetch_url_eq:
  "fetch_url env url = (Inr (fetched_context env url), [FetchUrl url, HttpGet url])"
  by (simp add: fetch_url_def fetched_context_def split: sum.splits)

lemma gather_fetch_url:
  "gather (map (fetch_url env) us) =
     (Inr (map (fetched_context env) us), concat (map (\<lambda>u. [FetchUrl u, HttpGet u]) us))"
  by (induction us) (simp_all add: fetch_url_eq)

lemma JSONResponse_prompt:
  "JSONResponse \<lparr>ok = True, answer = prompt_for_input, meta = None\<rparr> =
     Inr \<lparr>ok = True, answer = prompt_for_input, meta = None\<rparr>"
  by (simp add: JSONResponse_def utf8_encodable_def surrogate_def prompt_for_input_def)

lemma JSONResponse_Inr: "JSONResponse c = Inr r \<Longrightarrow> r = c"
  by (simp add: JSONResponse_def split: if_splits)

lemma ask_nonempty:
  assumes "map_of kvs (ascii ''query'') = Some (JStr q)" and "strip q \<noteq> []"
  shows "ask cfg env (JDict kvs) =
     (let us = findall (strip q);
          ms = build_messages (map (fetched_context env) (take 3 us)) (mode_of kvs) (strip q);
          called = call_openai cfg env ms
      in ((case fst called of
             Inl e \<Rightarrow> Inl e
           | Inr a \<Rightarrow> JSONResponse
                        \<lparr>ok = True, answer = a,
                          meta = Some \<lparr>m_urls = us, m_mode = mode_of kvs,
                                       m_provider = (if OPENAI_API_KEY cfg \<noteq> []
                                                     then ascii ''openai-compatible''
                                                     else ascii ''fallback-local'')\<rparr>\<rparr>),
          concat (map (\<lambda>u. [FetchUrl u, HttpGet u]) (take 3 us)) @ snd called))"
  using assms
  by (auto simp: ask_def mode_of_def gather_fetch_url Let_def split: sum.splits option.splits)

lemma ask_blank:
  assumes "map_of kvs (ascii ''query'') = Some (JStr q)" and "strip q = []"
  shows "ask cfg env (JDict kvs) = (Inr \<lparr>ok = True, answer = prompt_for_input, meta = None\<rparr>, [])"
  using assms by (simp add: ask_def JSONResponse_prompt split: option.splits)

lemma ask_absent:
  assumes "map_of kvs (ascii ''query'') = None"
  shows "ask cfg env (JDict kvs) = (Inr \<lparr>ok = True, answer = prompt_for_input, meta = None\<rparr>, [])"
  using assms by (simp add: ask_def strip_def JSONResponse_prompt split: option.splits)

lemma call_openai_trace:
  "completion_calls (snd (call_openai cfg env ms)) = [ms]"
  "fetch_calls (snd (call_openai cfg env ms)) = []"
  "http_gets (snd (call_openai cfg env ms)) = []"
  by (simp_all add: call_openai_def Let_def)

lemma fetch_trace:
  "completion_calls (concat (map (\<lambda>u. [FetchUrl u, HttpGet u]) us)) = []"
  "http_posts (concat (map (\<lambda>u. [FetchUrl u, HttpGet u]) us)) = []"
  "fetch_calls (concat (map (\<lambda>u. [FetchUrl u, HttpGet u]) us)) = us"
  "http_gets (concat (map (\<lambda>u. [FetchUrl u, HttpGet u]) us)) = us"
  by (induction us) simp_all

lemma trace_append:
  "completion_calls (tr @ tr') = completion_calls tr @ completion_calls tr'"
  "http_posts (tr @ tr') = http_posts tr @ http_posts tr'"
  "fetch_calls (tr @ tr') = fetch_calls tr @ fetch_calls tr'"
  "http_gets (tr @ tr') = http_gets tr @ http_gets tr'"
  by (induction tr rule: fetch_calls.induct) simp_all

lemma ask_completion_calls:
  assumes "map_of kvs (ascii ''query'') = Some (JStr q)" and "strip q \<noteq> []"
  shows "completion_calls (snd (ask cfg env (JDict kvs))) =
     [build_messages (map (fetched_context env) (take 3 (findall (strip q)))) (mode_of kvs) (strip q)]"
  by (simp add: ask_nonempty [OF assms] Let_def trace_append fetch_trace call_openai_trace)

lemma ask_fetches:
  assumes "map_of kvs (ascii ''query'') = Some (JStr q)" and "strip q \<noteq> []"
  shows "fetch_calls (snd (ask cfg env (JDict kvs))) = take 3 (findall (strip q))"
    and "http_gets (snd (ask cfg env (JDict kvs))) = take 3 (findall (strip q))"
  by (simp_all add: ask_nonempty [OF assms] Let_def trace_append fetch_trace call_openai_trace)

lemma ask_meta_urls:
  assumes "map_of kvs (ascii ''query'') = Some (JStr q)" and "strip q \<noteq> []"
    and "fst (ask cfg env (JDict kvs)) = Inr r"
  shows "\<exists>m. meta r = Some m \<and> m_urls m = findall (strip q)"
  using assms(3)
  by (auto simp: ask_nonempty [OF assms(1,2)] Let_def split: sum.splits dest!: JSONResponse_Inr)

lemma mode_not_query: "ascii ''mode'' \<noteq> ascii ''query''"
  by (simp add: ascii_def)

lemma role_system_not_user: "ascii ''system'' \<noteq> ascii ''user''"
  by (simp add: ascii_def)

lemma contains_url_Cons:
  "contains_url (c # cs) \<longleftrightarrow> match_url (c # cs) \<noteq> None \<or> contains_url cs"
proof -
  have u: "[0..<length (c # cs)] = 0 # map Suc [0..<length cs]"
    by (simp add: upt_conv_Cons map_Suc_upt del: upt_Suc)
  have m: "list_ex P (map Suc xs) = list_ex (\<lambda>i. P (Suc i)) xs" for P xs
    by (simp add: list_ex_iff)
  show ?thesis
    unfolding contains_url_def u by (simp add: m)
qed

lemma findall_empty_iff: "findall s = [] \<longleftrightarrow> \<not> contains_url s"
proof (induction s)
  case Nil
  show ?case by (simp add: contains_url_def)
next
  case (Cons c cs)
  then show ?case by (simp add: contains_url_Cons split: option.splits)
qed

lemma one_link_query_strip: "strip one_link_query = ascii ''see http://x.y''"
  by (simp add: one_link_query_def strip_def isspace_def ascii_def)

lemma plain_query_strip: "strip plain_query = ascii ''hello world''"
  by (simp add: plain_query_def strip_def isspace_def ascii_def)

lemma four_links_query_strip: "strip four_links_query = four_links_query"
  by (simp add: four_links_query_def strip_def isspace_def ascii_def)

lemma findall_one_link: "findall (ascii ''see http://x.y'') = [ascii ''http://x.y'']"
  by (simp add: match_url_def startswith_def isspace_def ascii_def)

lemma findall_four_links:
  "findall four_links_query = [ascii ''http://a'', ascii ''http://b'', ascii ''http://c'', ascii ''http://d'']"
  by (simp add: four_links_query_def match_url_def startswith_def isspace_def ascii_def)

lemma findall_plain: "findall (ascii ''hello world'') = []"
  by (simp add: match_url_def startswith_def isspace_def ascii_def)


lemma split_on_ne: "split_on d xs \<noteq> []"
  by (induction xs) (auto split: list.splits)









lemma ws_only_append: "ws_only (xs @ ys) \<Longrightarrow> list_all sp_or_tab xs \<and> list_all sp_or_tab ys"
  by (simp add: ws_only_def)























lemma first_user_content_build:
  "first_user_content (build_messages ctxs md query) =
     (if md = JStr (ascii ''summarize'') then summarize_instruction @ query
      else if md = JStr (ascii ''code'') then code_instruction @ query
      else query)"
  by (simp add: first_user_content_def build_messages_def role_system_not_user)




lemma match_url_hd: "c \<noteq> 104 \<Longrightarrow> match_url (c # cs) = None"
  by (auto simp: match_url_def startswith_def ascii_def)








lemma space_no_match: "isspace c \<Longrightarrow> match_url (c # cs) = None"
  by (rule match_url_hd) (auto simp: isspace_def)

lemma findall_dropWhile: "findall (dropWhile isspace s) = findall s"
  by (induction s) (simp_all add: space_no_match)

lemma takeWhile_append_none:
  "(\<forall>y \<in> set ys. \<not> P y) \<Longrightarrow> takeWhile P (xs @ ys) = takeWhile P xs"
proof (induction xs)
  case Nil
  then show ?case by (cases ys) simp_all
next
  case (Cons x xs)
  then show ?case by simp
qed

lemma startswith_append_ws:
  assumes "list_all isspace ws" and "\<forall>c \<in> set p. \<not> isspace c"
  shows "startswith (s @ ws) p = startswith s p"
proof (cases "length p \<le> length s")
  case True
  then show ?thesis by (simp add: startswith_def)
next
  case False
  then have n: "startswith s p = False"
    by (auto simp: startswith_def)
  have "\<not> startswith (s @ ws) p"
  proof
    assume "startswith (s @ ws) p"
    then have e: "s @ take (length p - length s) ws = p"
      using False by (simp add: startswith_def)
    show False
    proof (cases "take (length p - length s) ws")
      case Nil
      with e False show False by auto
    next
      case (Cons a as)
      then have "a \<in> set ws" by (metis in_set_takeD list.set_intros(1))
      moreover have "a \<in> set p" using e Cons by auto
      ultimately show False using assms by (auto simp: list_all_iff)
    qed
  qed
  with n show ?thesis by simp
qed

lemma match_url_append_ws:
  assumes "list_all isspace ws"
  shows "match_url (s @ ws) = match_url s"
proof -
  have p8: "\<forall>c \<in> set (ascii ''https://''). \<not> isspace c"
    and p7: "\<forall>c \<in> set (ascii ''http://''). \<not> isspace c"
    by (simp_all add: ascii_def isspace_def)
  have l: "length (ascii ''https://'') = 8" "length (ascii ''http://'') = 7"
    by (simp_all add: ascii_def)
  have t: "takeWhile (\<lambda>c. \<not> isspace c) (xs @ ws) = takeWhile (\<lambda>c. \<not> isspace c) xs" for xs
    using assms by (intro takeWhile_append_none) (simp add: list_all_iff)
  have k8: "startswith s (ascii ''https://'') \<Longrightarrow> 8 \<le> length s"
    and k7: "startswith s (ascii ''http://'') \<Longrightarrow> 7 \<le> length s"
    using l by (auto simp: startswith_def) (metis length_take min.cobounded1)+
  show ?thesis
    using k8 k7
    by (auto simp: match_url_def startswith_append_ws [OF assms p8]
        startswith_append_ws [OF assms p7] t Let_def)
qed

lemma match_url_length: "match_url s = Some m \<Longrightarrow> length m \<le> length s"
proof -
  assume a: "match_url s = Some m"
  have "length (take k s @ takeWhile P (drop k s)) \<le> length s" for k and P :: "nat \<Rightarrow> bool"
  proof -
    have "length (takeWhile P (drop k s)) \<le> length (drop k s)"
      by (rule length_takeWhile_le)
    then show ?thesis by (cases "k \<le> length s") auto
  qed
  with a show ?thesis
    by (auto simp: match_url_def Let_def split: if_splits)
qed

lemma findall_append_ws:
  assumes "list_all isspace ws"
  shows "findall (s @ ws) = findall s"
proof (induction s rule: findall.induct)
  case 1
  have "dropWhile isspace ws = []"
    using assms by (simp add: list_all_iff)
  then have "findall (dropWhile isspace ws) = []"
    by (simp only: findall.simps)
  then show ?case by (simp add: findall_dropWhile)
next
  case (2 c cs)
  have m: "match_url (c # cs @ ws) = match_url (c # cs)"
    using match_url_append_ws [OF assms, of "c # cs"] by simp
  show ?case
  proof (cases "match_url (c # cs)")
    case None
    with 2 m show ?thesis by simp
  next
    case (Some x)
    from match_url_length [OF Some] have "length x - 1 \<le> length cs" by simp
    then have "drop (length x - 1) (cs @ ws) = drop (length x - 1) cs @ ws" by simp
    with 2 m Some show ?thesis by simp
  qed
qed

lemma strip_decompose:
  "\<exists>b. list_all isspace b \<and> dropWhile isspace q = strip q @ b"
proof -
  let ?t = "dropWhile isspace q"
  have "rev ?t = takeWhile isspace (rev ?t) @ dropWhile isspace (rev ?t)" by simp
  then have "?t = rev (dropWhile isspace (rev ?t)) @ rev (takeWhile isspace (rev ?t))"
    by (metis rev_append rev_rev_ident)
  moreover have "list_all isspace (rev (takeWhile isspace (rev ?t)))"
    by (simp add: list_all_iff) (meson set_takeWhileD)
  ultimately show ?thesis unfolding strip_def by blast
qed

lemma findall_strip: "findall (strip q) = findall q"
proof -
  obtain b where b: "list_all isspace b" "dropWhile isspace q = strip q @ b"
    using strip_decompose by blast
  have "findall q = findall (dropWhile isspace q)" by (simp add: findall_dropWhile)
  also have "\<dots> = findall (strip q)" using b findall_append_ws by simp
  finally show ?thesis by simp
qed

lemma contains_url_strip: "contains_url (strip q) = contains_url q"
  using findall_empty_iff [of q] findall_empty_iff [of "strip q"] by (simp add: findall_strip)

lemma split_on_all: "list_all Q t \<Longrightarrow> list_all (list_all Q) (split_on d t)"
proof (induction t)
  case Nil
  show ?case by simp
next
  case (Cons c cs)
  obtain l ls where s: "split_on d cs = l # ls"
    using split_on_ne [of d cs] by (cases "split_on d cs") auto
  from Cons show ?case by (simp add: s)
qed

lemma join_all:
  "list_all Q sep \<Longrightarrow> list_all (list_all Q) ls \<Longrightarrow> list_all Q (join sep ls)"
  by (induction sep ls rule: join.induct) simp_all

lemma blank_ws_lines_all:
  assumes "Q 10" and "list_all Q t"
  shows "list_all Q (blank_ws_lines t)"
proof -
  have "list_all (list_all Q) (map (\<lambda>l. if ws_only l then [] else l) (split_on 10 t))"
    using split_on_all [OF assms(2), of 10] by (auto simp: list_all_iff)
  then show ?thesis
    unfolding blank_ws_lines_def using assms(1) by (intro join_all) simp_all
qed

lemma remove_margin_all:
  assumes "Q 10" and "list_all Q t"
  shows "list_all Q (remove_margin m t)"
proof -
  have "list_all (list_all Q)
      (map (\<lambda>l. if startswith l m then drop (length m) l else l) (split_on 10 t))"
    using split_on_all [OF assms(2), of 10]
    by (auto simp: list_all_iff dest: in_set_dropD)
  then show ?thesis
    unfolding remove_margin_def using assms(1) by (intro join_all) simp_all
qed

lemma dedent_all:
  assumes "Q 10" and "list_all Q t"
  shows "list_all Q (dedent t)"
  using blank_ws_lines_all [OF assms] remove_margin_all [OF assms(1) blank_ws_lines_all [OF assms]]
  by (simp add: dedent_def Let_def split: option.splits)

lemma strip_all: "list_all Q t \<Longrightarrow> list_all Q (strip t)"
  by (auto simp: strip_def list_all_iff dest!: set_dropWhileD)

lemma take_all: "list_all Q t \<Longrightarrow> list_all Q (take n t)"
  by (auto simp: list_all_iff dest: in_set_takeD)

lemma fallback_plan_encodable:
  assumes "utf8_encodable u"
  shows "utf8_encodable (fallback_plan u)"
proof -
  have c: "utf8_encodable plan_head" "utf8_encodable plan_mid" "utf8_encodable plan_tail"
    by (simp_all add: utf8_encodable_def surrogate_def plan_head_def plan_mid_def plan_tail_def)
  have n: "\<not> surrogate 10" by (simp add: surrogate_def)
  have "list_all (\<lambda>c. \<not> surrogate c)
      (plan_head @ take 500 u @ plan_mid @ take 200 u @ plan_tail)"
    using c assms take_all [of "\<lambda>c. \<not> surrogate c" u] by (simp add: utf8_encodable_def)
  then show ?thesis
    unfolding fallback_plan_def utf8_encodable_def
    by (intro strip_all dedent_all n)
qed

lemma match_url_subset: "match_url s = Some m \<Longrightarrow> set m \<subseteq> set s"
proof -
  have "set (take k s @ takeWhile P (drop k s)) \<subseteq> set s" for k and P :: "nat \<Rightarrow> bool"
    by (auto dest: in_set_takeD set_takeWhileD in_set_dropD)
  note h = this
  assume "match_url s = Some m"
  then obtain k where "m = take k s @ takeWhile (\<lambda>c. \<not> isspace c) (drop k s)"
    by (auto simp: match_url_def Let_def split: if_splits)
  then show "set m \<subseteq> set s"
    using h [of k "\<lambda>c. \<not> isspace c"] by (simp only:)
qed

lemma findall_subset: "u \<in> set (findall s) \<Longrightarrow> set u \<subseteq> set s"
proof (induction s rule: findall.induct)
  case 1
  then show ?case by simp
next
  case (2 c cs)
  show ?case
  proof (cases "match_url (c # cs)")
    case None
    with 2 show ?thesis by auto
  next
    case (Some m)
    with 2 have "u = m \<or> u \<in> set (findall (drop (length m - 1) cs))" by simp
    then show ?thesis
    proof
      assume "u = m"
      with match_url_subset [OF Some] show ?thesis by simp
    next
      assume "u \<in> set (findall (drop (length m - 1) cs))"
      with 2 Some have "set u \<subseteq> set (drop (length m - 1) cs)" by simp
      then show ?thesis by (auto dest: in_set_dropD)
    qed
  qed
qed

lemma findall_encodable: "utf8_encodable s \<Longrightarrow> list_all utf8_encodable (findall s)"
  using findall_subset [of _ s] by (fastforce simp: utf8_encodable_def list_all_iff)

lemma strip_encodable: "utf8_encodable q \<Longrightarrow> utf8_encodable (strip q)"
  unfolding utf8_encodable_def by (rule strip_all)

lemma instructions_encodable:
  "utf8_encodable summarize_instruction" "utf8_encodable code_instruction"
  "utf8_encodable (ascii ''fallback-local'')"
  by (simp_all add: utf8_encodable_def surrogate_def summarize_instruction_def
      code_instruction_def ascii_def)

lemma utf8_encodable_append:
  "utf8_encodable (a @ b) \<longleftrightarrow> utf8_encodable a \<and> utf8_encodable b"
  by (simp add: utf8_encodable_def)

lemma ask_keyless:
  assumes "map_of kvs (ascii ''query'') = Some (JStr q)" and "strip q \<noteq> []"
    and "OPENAI_API_KEY cfg = []"
  shows "ask cfg env (JDict kvs) =
     (JSONResponse
        \<lparr>ok = True,
         answer = fallback_plan
           (if mode_of kvs = JStr (ascii ''summarize'') then summarize_instruction @ strip q
            else if mode_of kvs = JStr (ascii ''code'') then code_instruction @ strip q
            else strip q),
         meta = Some \<lparr>m_urls = findall (strip q), m_mode = mode_of kvs,
                      m_provider = ascii ''fallback-local''\<rparr>\<rparr>,
      concat (map (\<lambda>u. [FetchUrl u, HttpGet u]) (take 3 (findall (strip q)))) @
      [CallOpenAI (build_messages (map (fetched_context env) (take 3 (findall (strip q))))
         (mode_of kvs) (strip q))])"
  using assms(3)
  by (simp add: ask_nonempty [OF assms(1,2)] Let_def call_openai_def first_user_content_build)

lemma JSONResponse_keyless:
  assumes "utf8_encodable q" and "finite_json md" and "json_encodable md"
  shows "JSONResponse
        \<lparr>ok = True,
         answer = fallback_plan
           (if md = JStr (ascii ''summarize'') then summarize_instruction @ strip q
            else if md = JStr (ascii ''code'') then code_instruction @ strip q
            else strip q),
         meta = Some \<lparr>m_urls = findall (strip q), m_mode = md,
                      m_provider = ascii ''fallback-local''\<rparr>\<rparr> =
     Inr \<lparr>ok = True,
         answer = fallback_plan
           (if md = JStr (ascii ''summarize'') then summarize_instruction @ strip q
            else if md = JStr (ascii ''code'') then code_instruction @ strip q
            else strip q),
         meta = Some \<lparr>m_urls = findall (strip q), m_mode = md,
                      m_provider = ascii ''fallback-local''\<rparr>\<rparr>"
  using assms strip_encodable [OF assms(1)] findall_encodable [OF strip_encodable [OF assms(1)]]
  by (simp add: JSONResponse_def fallback_plan_encodable instructions_encodable
      utf8_encodable_append)


lemma ask_keyless_returns:
  assumes "map_of kvs (ascii ''query'') = Some (JStr q)" and "strip q \<noteq> []"
    and "OPENAI_API_KEY cfg = []"
    and "utf8_encodable q" and "finite_json (mode_of kvs)" and "json_encodable (mode_of kvs)"
  shows "\<exists>r. fst (ask cfg env (JDict kvs)) = Inr r"
  by (simp add: ask_keyless [OF assms(1-3)] JSONResponse_keyless [OF assms(4-6)])

lemma match_url_no_space: "match_url s = Some m \<Longrightarrow> c \<in> set m \<Longrightarrow> \<not> isspace c"
proof -
  assume m: "match_url s = Some m" and c: "c \<in> set m"
  have p: "\<forall>x \<in> set (ascii ''https://''). \<not> isspace x" "\<forall>x \<in> set (ascii ''http://''). \<not> isspace x"
    by (simp_all add: ascii_def isspace_def)
  have l: "length (ascii ''https://'') = 8" "length (ascii ''http://'') = 7"
    by (simp_all add: ascii_def)
  from m obtain pre r where k: "m = pre @ takeWhile (\<lambda>c. \<not> isspace c) r"
      "pre = ascii ''https://'' \<or> pre = ascii ''http://''"
    using l by (auto simp: match_url_def Let_def startswith_def split: if_splits)
  from c k(1) have "c \<in> set pre \<or> c \<in> set (takeWhile (\<lambda>c. \<not> isspace c) r)"
    by simp
  then show ?thesis
  proof
    assume "c \<in> set pre"
    with k(2) p show ?thesis by auto
  next
    assume "c \<in> set (takeWhile (\<lambda>c. \<not> isspace c) r)"
    then show ?thesis by (rule set_takeWhileD [THEN conjunct2])
  qed
qed

lemma findall_no_space: "u \<in> set (findall s) \<Longrightarrow> c \<in> set u \<Longrightarrow> \<not> isspace c"
proof (induction s rule: findall.induct)
  case 1
  then show ?case by simp
next
  case (2 x xs)
  show ?case
  proof (cases "match_url (x # xs)")
    case None
    with 2 show ?thesis by auto
  next
    case (Some m)
    with 2 have "u = m \<or> u \<in> set (findall (drop (length m - 1) xs))" by simp
    then show ?thesis
    proof
      assume "u = m"
      with match_url_no_space [OF Some] 2(4) show ?thesis by simp
    next
      assume "u \<in> set (findall (drop (length m - 1) xs))"
      with 2 Some show ?thesis by simp
    qed
  qed
qed

lemma user_filter_build:
  "filter (\<lambda>m. role m = ascii ''user'') (build_messages ctxs md query) =
     [\<lparr>role = ascii ''user'',
       content = (if md = JStr (ascii ''summarize'') then summarize_instruction @ query
                  else if md = JStr (ascii ''code'') then code_instruction @ query
                  else query)\<rparr>]"
  by (simp add: build_messages_def role_system_not_user)

section \<open>The request handler on an empty query\<close>

text \<open>
  Claim C6. A request whose query is a string that is empty or made of whitespace only is
  answered with \<open>ok = True\<close>, the fixed prompt-for-input answer and no \<open>meta\<close>; the
  trace is empty: \<open>fetch_url\<close> and \<open>call_openai\<close> are not called and no HTTP request
  is issued, whatever the configuration and the environment.
\<close>

theorem empty_query_short_circuit: 
  assumes "map_of kvs (ascii ''query'') = Some (JStr q)" and "list_all isspace q"
  shows "ask cfg env (JDict kvs) =
           (Inr \<lparr>ok = True, answer = prompt_for_input, meta = None\<rparr>, [])"
  by (rule ask_blank [OF assms(1) strip_all_space [OF assms(2)]])

theorem empty_query_short_circuit_witness:
  "map_of [(ascii ''query'', JStr [32, 9, 10])] (ascii ''query'') = Some (JStr [32, 9, 10]) \<and>
   list_all isspace [32, 9, 10] \<and>
   ask keyed_config offline_env (JDict [(ascii ''query'', JStr [32, 9, 10])]) =
     (Inr \<lparr>ok = True, answer = prompt_for_input, meta = None\<rparr>, [])"
proof -
  have h1: "map_of [(ascii ''query'', JStr [32, 9, 10])] (ascii ''query'') = Some (JStr [32, 9, 10])"
    by simp
  have h2: "list_all isspace [32, 9, 10]"
    by (simp add: isspace_def)
  show ?thesis
    using h1 h2 empty_query_short_circuit [OF h1 h2, of keyed_config offline_env] by simp
qed

text \<open>
  Claim C10. A body without a \<open>query\<close> field gets the same fixed answer as one whose
  query is the empty string. A query string and its stripped form are handled
  identically in every respect (result and trace), and the stripped form, when not
  empty, neither starts nor ends with whitespace. For a query string that is present,
  the stripped text is what each step uses: if it is empty the fixed answer is
  returned; otherwise the URLs fetched and the URLs reported in \<open>meta.urls\<close> are those
  found in the stripped text, none of them holds whitespace, and the one user message
  of the prompt is built from the stripped text.
\<close>

theorem absent_query_and_strip:
  "(map_of kvs (ascii ''query'') = None \<longrightarrow>
      ask cfg env (JDict kvs) =
        (Inr \<lparr>ok = True, answer = prompt_for_input, meta = None\<rparr>, []) \<and>
      ask cfg env (JDict kvs) = ask cfg env (JDict ((ascii ''query'', JStr []) # kvs))) \<and>
   ask cfg env (JDict ((ascii ''query'', JStr q) # kvs)) =
     ask cfg env (JDict ((ascii ''query'', JStr (strip q)) # kvs)) \<and>
   (strip q \<noteq> [] \<longrightarrow> \<not> isspace (hd (strip q)) \<and> \<not> isspace (last (strip q))) \<and>
   (map_of kvs (ascii ''query'') = Some (JStr q) \<longrightarrow>
      (strip q = [] \<longrightarrow>
         ask cfg env (JDict kvs) =
           (Inr \<lparr>ok = True, answer = prompt_for_input, meta = None\<rparr>, [])) \<and>
      (strip q \<noteq> [] \<longrightarrow>
         fetch_calls (snd (ask cfg env (JDict kvs))) = take 3 (findall (strip q)) \<and>
         (\<forall>u \<in> set (findall (strip q)). \<forall>c \<in> set u. \<not> isspace c) \<and>
         (\<forall>r. fst (ask cfg env (JDict kvs)) = Inr r \<longrightarrow>
              (\<exists>m. meta r = Some m \<and> m_urls m = findall (strip q))) \<and>
         (\<exists>ms. completion_calls (snd (ask cfg env (JDict kvs))) = [ms] \<and>
            filter (\<lambda>m. role m = ascii ''user'') ms =
              [\<lparr>role = ascii ''user'',
                content =
                  (if mode_of kvs = JStr (ascii ''summarize'') then summarize_instruction @ strip q
                   else if mode_of kvs = JStr (ascii ''code'') then code_instruction @ strip q
                   else strip q)\<rparr>])))"
proof -
  have a: "ask cfg env (JDict ((ascii ''query'', JStr []) # kvs)) =
        (Inr \<lparr>ok = True, answer = prompt_for_input, meta = None\<rparr>, [])"
    by (rule ask_blank [where q = "[]"]) (simp_all add: strip_def)
  have b: "ask cfg env (JDict ((ascii ''query'', JStr q) # kvs)) =
     ask cfg env (JDict ((ascii ''query'', JStr (strip q)) # kvs))"
    by (simp add: ask_def strip_idem mode_not_query)
  have c: "map_of kvs (ascii ''query'') = Some (JStr q) \<Longrightarrow> strip q = [] \<Longrightarrow>
      ask cfg env (JDict kvs) =
        (Inr \<lparr>ok = True, answer = prompt_for_input, meta = None\<rparr>, [])"
    by (rule ask_blank)
  have d: "fetch_calls (snd (ask cfg env (JDict kvs))) = take 3 (findall (strip q)) \<and>
         (\<forall>u \<in> set (findall (strip q)). \<forall>c \<in> set u. \<not> isspace c) \<and>
         (\<forall>r. fst (ask cfg env (JDict kvs)) = Inr r \<longrightarrow>
              (\<exists>m. meta r = Some m \<and> m_urls m = findall (strip q))) \<and>
         (\<exists>ms. completion_calls (snd (ask cfg env (JDict kvs))) = [ms] \<and>
            filter (\<lambda>m. role m = ascii ''user'') ms =
              [\<lparr>role = ascii ''user'',
                content =
                  (if mode_of kvs = JStr (ascii ''summarize'') then summarize_instruction @ strip q
                   else if mode_of kvs = JStr (ascii ''code'') then code_instruction @ strip q
                   else strip q)\<rparr>])"
    if h: "map_of kvs (ascii ''query'') = Some (JStr q)" "strip q \<noteq> []"
    using ask_meta_urls [OF h] findall_no_space [of _ "strip q"]
    by (simp add: ask_fetches [OF h] ask_completion_calls [OF h] user_filter_build)
  show ?thesis
    using a b c d ask_absent [of kvs cfg env] strip_hd [of q] strip_last [of q] by simp
qed

theorem absent_query_and_strip_witness:
  "map_of [] (ascii ''query'') = (None :: json option) \<and>
   ask keyless_config offline_env (JDict []) =
     (Inr \<lparr>ok = True, answer = prompt_for_input, meta = None\<rparr>, []) \<and>
   map_of [(ascii ''query'', JStr [32, 9, 10])] (ascii ''query'') = Some (JStr [32, 9, 10]) \<and>
   strip [32, 9, 10] = [] \<and>
   ask keyless_config offline_env (JDict [(ascii ''query'', JStr [32, 9, 10])]) =
     (Inr \<lparr>ok = True, answer = prompt_for_input, meta = None\<rparr>, []) \<and>
   map_of [(ascii ''query'', JStr one_link_query)] (ascii ''query'') = Some (JStr one_link_query) \<and>
   strip one_link_query \<noteq> [] \<and>
   \<not> isspace (hd (strip one_link_query)) \<and> \<not> isspace (last (strip one_link_query)) \<and>
   ask keyless_config offline_env (JDict [(ascii ''query'', JStr one_link_query)]) =
     ask keyless_config offline_env (JDict [(ascii ''query'', JStr (strip one_link_query))]) \<and>
   fetch_calls (snd (ask keyless_config offline_env (JDict [(ascii ''query'', JStr one_link_query)]))) =
     [ascii ''http://x.y''] \<and>
   (\<exists>ms. completion_calls
          (snd (ask keyless_config offline_env (JDict [(ascii ''query'', JStr one_link_query)]))) = [ms] \<and>
      filter (\<lambda>m. role m = ascii ''user'') ms =
        [\<lparr>role = ascii ''user'', content = ascii ''see http://x.y''\<rparr>])"
proof -
  have h1: "map_of [(ascii ''query'', JStr one_link_query)] (ascii ''query'') = Some (JStr one_link_query)"
    by simp
  have h2: "strip one_link_query \<noteq> []"
    by (simp add: one_link_query_strip ascii_def)
  have b1: "map_of [(ascii ''query'', JStr [32, 9, 10])] (ascii ''query'') = Some (JStr [32, 9, 10])"
    by simp
  have b2: "strip [32, 9, 10] = []"
    by (simp add: strip_def isspace_def)
  have au: "ascii ''auto'' \<noteq> ascii ''summarize''" "ascii ''auto'' \<noteq> ascii ''code''"
    by (simp_all add: ascii_def)
  have m: "mode_of [(ascii ''query'', JStr one_link_query)] = JStr (ascii ''auto'')"
    by (simp add: mode_of_def mode_not_query)
  have a: "ask keyless_config offline_env (JDict []) =
     (Inr \<lparr>ok = True, answer = prompt_for_input, meta = None\<rparr>, [])"
    using absent_query_and_strip [of "[]" keyless_config offline_env "[]"] by simp
  have b: "ask keyless_config offline_env (JDict [(ascii ''query'', JStr [32, 9, 10])]) =
     (Inr \<lparr>ok = True, answer = prompt_for_input, meta = None\<rparr>, [])"
    using absent_query_and_strip
      [of "[(ascii ''query'', JStr [32, 9, 10])]" keyless_config offline_env "[32, 9, 10]"] b1 b2
    by simp
  have c: "ask keyless_config offline_env (JDict [(ascii ''query'', JStr one_link_query)]) =
     ask keyless_config offline_env (JDict [(ascii ''query'', JStr (strip one_link_query))])"
    using absent_query_and_strip [of "[]" keyless_config offline_env one_link_query] by simp
  have d: "\<not> isspace (hd (strip one_link_query)) \<and> \<not> isspace (last (strip one_link_query)) \<and>
   fetch_calls (snd (ask keyless_config offline_env (JDict [(ascii ''query'', JStr one_link_query)]))) =
     [ascii ''http://x.y''] \<and>
   (\<exists>ms. completion_calls
          (snd (ask keyless_config offline_env (JDict [(ascii ''query'', JStr one_link_query)]))) = [ms] \<and>
      filter (\<lambda>m. role m = ascii ''user'') ms =
        [\<lparr>role = ascii ''user'', content = ascii ''see http://x.y''\<rparr>])"
    using absent_query_and_strip
      [of "[(ascii ''query'', JStr one_link_query)]" keyless_config offline_env one_link_query]
      h1 h2
    by (simp add: m au one_link_query_strip findall_one_link)
  from a b c d h1 h2 b1 b2 show ?thesis by simp
qed

section \<open>The article fetcher\<close>

text \<open>
  Claim C2. For every environment and URL \<open>fetch_url\<close> returns a string and raises
  nothing. Whatever the body of its \<open>try\<close> raises becomes the placeholder: the fixed
  prefix, the text of the exception and a closing parenthesis. The body raises on a
  transport failure, on a status outside 200 to 299, and on a failure of any of the four
  parsing steps. Gathering the fetches of a list of URLs therefore yields one string per
  URL and no exception.
\<close>

theorem fetch_url_never_raises:
  "(\<exists>s. fst (fetch_url env url) = Inr s) \<and>
   (\<forall>e. fetch_body env url = Inl e \<longrightarrow>
        fst (fetch_url env url) = Inr (fetch_error_prefix @ exn_text env e @ ascii '')'')) \<and>
   (\<forall>e. http_get env url = Inl e \<longrightarrow> fetch_body env url = Inl e) \<and>
   (\<forall>r. http_get env url = Inr r \<and> \<not> is_success r \<longrightarrow>
        fetch_body env url = Inl (HTTPStatusError (status_code r))) \<and>
   (\<forall>r e. http_get env url = Inr r \<and> is_success r \<and>
          (doc_short_title env (body_text r) = Inl e \<or>
           (\<exists>t. doc_short_title env (body_text r) = Inr t) \<and>
             (doc_summary env (body_text r) = Inl e \<or>
              (\<exists>h. doc_summary env (body_text r) = Inr h \<and>
                 (soup_get_text env h = Inl e \<or>
                  (\<exists>x. soup_get_text env h = Inr x \<and> markdownify env x = Inl e))))) \<longrightarrow>
        fetch_body env url = Inl e) \<and>
   (\<exists>cs. fst (gather (map (fetch_url env) us)) = Inr cs \<and> length cs = length us)"
  by (auto simp: fetch_url_eq fetched_context_def gather_fetch_url fetch_body_def
      raise_for_status_def is_success_def Let_def split: sum.splits)

theorem fetch_url_never_raises_witness:
  "http_get offline_env (ascii ''http://x.y'') = Inl (LibraryError (ascii ''ConnectError'')) \<and>
   fst (fetch_url offline_env (ascii ''http://x.y'')) =
     Inr (fetch_error_prefix @ ascii ''ConnectError'' @ ascii '')'') \<and>
   \<not> is_success \<lparr>status_code = 404, body_text = [], body_json = Inr JNull\<rparr> \<and>
   fst (fetch_url refusing_env (ascii ''http://x.y'')) =
     Inr (fetch_error_prefix @ ascii ''HTTPStatusError'' @ ascii '')'') \<and>
   doc_summary garbled_env (ascii ''<<'') = Inl (LibraryError (ascii ''Unparseable'')) \<and>
   fst (fetch_url garbled_env (ascii ''http://x.y'')) =
     Inr (fetch_error_prefix @ ascii ''Unparseable'' @ ascii '')'')"
proof -
  have a: "fst (fetch_url offline_env (ascii ''http://x.y'')) =
     Inr (fetch_error_prefix @ ascii ''ConnectError'' @ ascii '')'')"
    using fetch_url_never_raises [of offline_env "ascii ''http://x.y''" "[]"]
    by (simp add: offline_env_def)
  have b: "fst (fetch_url refusing_env (ascii ''http://x.y'')) =
     Inr (fetch_error_prefix @ ascii ''HTTPStatusError'' @ ascii '')'')"
    using fetch_url_never_raises [of refusing_env "ascii ''http://x.y''" "[]"]
    by (simp add: refusing_env_def is_success_def)
  have c: "fst (fetch_url garbled_env (ascii ''http://x.y'')) =
     Inr (fetch_error_prefix @ ascii ''Unparseable'' @ ascii '')'')"
    using fetch_url_never_raises [of garbled_env "ascii ''http://x.y''" "[]"]
    by (simp add: garbled_env_def is_success_def)
  show ?thesis
    using a b c by (simp add: offline_env_def garbled_env_def is_success_def)
qed

section \<open>Link extraction and fetching inside the handler\<close>

text \<open>
  Claim C8. When the query string is not empty after stripping and the pattern matches
  at no position of it, \<open>fetch_url\<close> is never called, no GET is issued, and every
  response the handler returns carries an empty \<open>meta.urls\<close>.
\<close>

theorem no_url_no_fetch:
  assumes "map_of kvs (ascii ''query'') = Some (JStr q)" and "strip q \<noteq> []"
    and "\<not> contains_url q"
  shows "fetch_calls (snd (ask cfg env (JDict kvs))) = [] \<and>
         http_gets (snd (ask cfg env (JDict kvs))) = [] \<and>
         (\<forall>r. fst (ask cfg env (JDict kvs)) = Inr r \<longrightarrow>
              (\<exists>m. meta r = Some m \<and> m_urls m = []))"
  using assms(3) ask_meta_urls [OF assms(1,2)]
  by (simp add: ask_fetches [OF assms(1,2)] findall_empty_iff [symmetric] findall_strip)

theorem no_url_no_fetch_witness:
  "map_of [(ascii ''query'', JStr plain_query)] (ascii ''query'') = Some (JStr plain_query) \<and>
   strip plain_query \<noteq> [] \<and> \<not> contains_url plain_query \<and>
   fetch_calls (snd (ask keyless_config offline_env (JDict [(ascii ''query'', JStr plain_query)]))) = [] \<and>
   http_gets (snd (ask keyless_config offline_env (JDict [(ascii ''query'', JStr plain_query)]))) = [] \<and>
   (\<exists>r m. fst (ask keyless_config offline_env (JDict [(ascii ''query'', JStr plain_query)])) = Inr r \<and>
      meta r = Some m \<and> m_urls m = [])"
proof -
  have h1: "map_of [(ascii ''query'', JStr plain_query)] (ascii ''query'') = Some (JStr plain_query)"
    by simp
  have h2: "strip plain_query \<noteq> []"
    by (simp add: plain_query_strip ascii_def)
  have "findall plain_query = []"
    using findall_strip [of plain_query] by (simp add: plain_query_strip findall_plain)
  then have h3: "\<not> contains_url plain_query"
    by (simp add: findall_empty_iff [symmetric])
  have e: "utf8_encodable plain_query" "finite_json (mode_of [(ascii ''query'', JStr plain_query)])"
    "json_encodable (mode_of [(ascii ''query'', JStr plain_query)])"
    by (simp_all add: mode_of_def mode_not_query utf8_encodable_def surrogate_def ascii_def
        plain_query_def)
  have k: "OPENAI_API_KEY keyless_config = []"
    by (simp add: keyless_config_def)
  obtain r where r: "fst (ask keyless_config offline_env (JDict [(ascii ''query'', JStr plain_query)])) = Inr r"
    using ask_keyless_returns [OF h1 h2 k e, of offline_env] by blast
  show ?thesis
    using h2 h3 r no_url_no_fetch [OF h1 h2 h3, of keyless_config offline_env] by simp
qed

text \<open>
  Claim C3. When a non-empty query yields more than three URLs, \<open>fetch_url\<close> is
  called for exactly the first three, in order of appearance, and these are the only
  GETs; every response the handler returns lists all the URLs found, in order, in
  \<open>meta.urls\<close>.
\<close>

theorem only_first_three_fetched:
  assumes "map_of kvs (ascii ''query'') = Some (JStr q)" and "strip q \<noteq> []"
    and "3 < length (findall q)"
  shows "fetch_calls (snd (ask cfg env (JDict kvs))) = take 3 (findall q) \<and>
         http_gets (snd (ask cfg env (JDict kvs))) = take 3 (findall q) \<and>
         length (take 3 (findall q)) = 3 \<and>
         (\<forall>r. fst (ask cfg env (JDict kvs)) = Inr r \<longrightarrow>
              (\<exists>m. meta r = Some m \<and> m_urls m = findall q))"
  using assms(3) ask_meta_urls [OF assms(1,2)]
  by (simp add: ask_fetches [OF assms(1,2)] findall_strip)

theorem only_first_three_fetched_witness:
  "map_of [(ascii ''query'', JStr four_links_query)] (ascii ''query'') =
     Some (JStr four_links_query) \<and>
   strip four_links_query \<noteq> [] \<and> 3 < length (findall four_links_query) \<and>
   fetch_calls (snd (ask keyless_config offline_env (JDict [(ascii ''query'', JStr four_links_query)])))
     = [ascii ''http://a'', ascii ''http://b'', ascii ''http://c''] \<and>
   (\<exists>r m. fst (ask keyless_config offline_env (JDict [(ascii ''query'', JStr four_links_query)])) = Inr r \<and>
      meta r = Some m \<and>
      m_urls m = [ascii ''http://a'', ascii ''http://b'', ascii ''http://c'', ascii ''http://d''])"
proof -
  have h1: "map_of [(ascii ''query'', JStr four_links_query)] (ascii ''query'') =
      Some (JStr four_links_query)"
    by simp
  have h2: "strip four_links_query \<noteq> []"
    by (simp add: four_links_query_strip) (simp add: four_links_query_def ascii_def)
  have h3: "3 < length (findall four_links_query)"
    by (simp add: findall_four_links)
  have e: "utf8_encodable four_links_query" "finite_json (mode_of [(ascii ''query'', JStr four_links_query)])"
    "json_encodable (mode_of [(ascii ''query'', JStr four_links_query)])"
    by (simp_all add: mode_of_def mode_not_query utf8_encodable_def surrogate_def ascii_def
        four_links_query_def)
  have k: "OPENAI_API_KEY keyless_config = []"
    by (simp add: keyless_config_def)
  obtain r where r: "fst (ask keyless_config offline_env (JDict [(ascii ''query'', JStr four_links_query)])) = Inr r"
    using ask_keyless_returns [OF h1 h2 k e, of offline_env] by blast
  show ?thesis
    using h2 h3 r only_first_three_fetched [OF h1 h2 h3, of keyless_config offline_env]
    by (simp add: four_links_query_strip findall_four_links)
qed

section \<open>The prompt\<close>

text \<open>
  Claim C7. For a non-empty query the handler calls the completion client once, with a
  message list that starts with the persona system message, continues with exactly one
  further system message (the instruction followed by the contexts joined by a blank
  line) if and only if there are fetched contexts, and ends with one message of role
  \<open>user\<close>.
\<close>

theorem prompt_shape:
  assumes "map_of kvs (ascii ''query'') = Some (JStr q)" and "strip q \<noteq> []"
  shows "\<exists>ctxs u.
     ctxs = map (fetched_context env) (take 3 (findall (strip q))) \<and>
     role u = ascii ''user'' \<and>
     completion_calls (snd (ask cfg env (JDict kvs))) =
       [\<lparr>role = ascii ''system'', content = SYSTEM_PROMPT\<rparr> #
        (if ctxs \<noteq> [] then
           [\<lparr>role = ascii ''system'', content = context_instruction @ join [10, 10] ctxs\<rparr>]
         else []) @ [u]]"
  by (simp add: ask_completion_calls [OF assms] build_messages_def)

theorem prompt_shape_witness:
  "map_of [(ascii ''query'', JStr plain_query)] (ascii ''query'') = Some (JStr plain_query) \<and>
   strip plain_query \<noteq> [] \<and>
   completion_calls (snd (ask keyless_config offline_env (JDict [(ascii ''query'', JStr plain_query)]))) =
     [[\<lparr>role = ascii ''system'', content = SYSTEM_PROMPT\<rparr>,
       \<lparr>role = ascii ''user'', content = ascii ''hello world''\<rparr>]] \<and>
   map_of [(ascii ''query'', JStr one_link_query)] (ascii ''query'') = Some (JStr one_link_query) \<and>
   strip one_link_query \<noteq> [] \<and>
   completion_calls (snd (ask keyless_config offline_env (JDict [(ascii ''query'', JStr one_link_query)]))) =
     [[\<lparr>role = ascii ''system'', content = SYSTEM_PROMPT\<rparr>,
       \<lparr>role = ascii ''system'',
        content = context_instruction @ fetch_error_prefix @ ascii ''ConnectError'' @ ascii '')''\<rparr>,
       \<lparr>role = ascii ''user'', content = ascii ''see http://x.y''\<rparr>]]"
proof -
  have h1: "map_of [(ascii ''query'', JStr plain_query)] (ascii ''query'') = Some (JStr plain_query)"
    by simp
  have h2: "strip plain_query \<noteq> []"
    by (simp add: plain_query_strip ascii_def)
  have g1: "map_of [(ascii ''query'', JStr one_link_query)] (ascii ''query'') = Some (JStr one_link_query)"
    by simp
  have g2: "strip one_link_query \<noteq> []"
    by (simp add: one_link_query_strip ascii_def)
  have f: "fetched_context offline_env x = fetch_error_prefix @ ascii ''ConnectError'' @ ascii '')''" for x
    by (simp add: fetched_context_def fetch_body_def offline_env_def)
  have c: "completion_calls (snd (ask keyless_config offline_env (JDict [(ascii ''query'', JStr plain_query)]))) =
     [build_messages [] (JStr (ascii ''auto'')) (ascii ''hello world'')]"
    by (simp add: ask_completion_calls [OF h1 h2] plain_query_strip findall_plain mode_of_def
        mode_not_query)
  have d: "completion_calls (snd (ask keyless_config offline_env (JDict [(ascii ''query'', JStr one_link_query)]))) =
     [build_messages [fetch_error_prefix @ ascii ''ConnectError'' @ ascii '')'']
        (JStr (ascii ''auto'')) (ascii ''see http://x.y'')]"
    by (simp add: ask_completion_calls [OF g1 g2] one_link_query_strip findall_one_link mode_of_def
        mode_not_query f)
  from prompt_shape [OF h1 h2, of offline_env keyless_config]
  obtain u where "completion_calls (snd (ask keyless_config offline_env (JDict [(ascii ''query'', JStr plain_query)]))) =
     [[\<lparr>role = ascii ''system'', content = SYSTEM_PROMPT\<rparr>, u]]"
    by (auto simp: plain_query_strip findall_plain)
  with c have p1: "completion_calls (snd (ask keyless_config offline_env (JDict [(ascii ''query'', JStr plain_query)]))) =
     [[\<lparr>role = ascii ''system'', content = SYSTEM_PROMPT\<rparr>,
       \<lparr>role = ascii ''user'', content = ascii ''hello world''\<rparr>]]"
    by (simp add: build_messages_def ascii_def)
  from prompt_shape [OF g1 g2, of offline_env keyless_config]
  obtain v where "completion_calls (snd (ask keyless_config offline_env (JDict [(ascii ''query'', JStr one_link_query)]))) =
     [[\<lparr>role = ascii ''system'', content = SYSTEM_PROMPT\<rparr>,
       \<lparr>role = ascii ''system'',
        content = context_instruction @ fetch_error_prefix @ ascii ''ConnectError'' @ ascii '')''\<rparr>,
       v]]"
    by (auto simp: one_link_query_strip findall_one_link f)
  with d have p2: "completion_calls (snd (ask keyless_config offline_env (JDict [(ascii ''query'', JStr one_link_query)]))) =
     [[\<lparr>role = ascii ''system'', content = SYSTEM_PROMPT\<rparr>,
       \<lparr>role = ascii ''system'',
        content = context_instruction @ fetch_error_prefix @ ascii ''ConnectError'' @ ascii '')''\<rparr>,
       \<lparr>role = ascii ''user'', content = ascii ''see http://x.y''\<rparr>]]"
    by (simp add: build_messages_def ascii_def)
  from h1 h2 g1 g2 p1 p2 show ?thesis by simp
qed

text \<open>
  Claim C9. When a non-empty query contains a URL-like substring, the list of gathered
  contexts is not empty and the prompt is the persona message, the context system
  message and the user message; this holds in every environment, and when every fetch
  fails each context is a placeholder.
\<close>

theorem url_gives_context_message:
  assumes "map_of kvs (ascii ''query'') = Some (JStr q)" and "strip q \<noteq> []"
    and "contains_url q"
  shows "\<exists>ctxs u.
     ctxs = map (fetched_context env) (take 3 (findall q)) \<and> ctxs \<noteq> [] \<and>
     role u = ascii ''user'' \<and>
     completion_calls (snd (ask cfg env (JDict kvs))) =
       [[\<lparr>role = ascii ''system'', content = SYSTEM_PROMPT\<rparr>,
         \<lparr>role = ascii ''system'', content = context_instruction @ join [10, 10] ctxs\<rparr>,
         u]] \<and>
     ((\<forall>x. \<exists>e. fetch_body env x = Inl e) \<longrightarrow>
        (\<forall>c \<in> set ctxs. \<exists>e. c = fetch_error_prefix @ exn_text env e @ ascii '')''))"
proof -
  from assms(3) have ne: "findall q \<noteq> []"
    by (simp add: findall_empty_iff)
  have ph: "(\<forall>x. \<exists>e. fetch_body env x = Inl e) \<Longrightarrow>
     \<exists>e. fetched_context env x = fetch_error_prefix @ exn_text env e @ ascii '')''" for x
  proof -
    assume "\<forall>x. \<exists>e. fetch_body env x = Inl e"
    then obtain e where "fetch_body env x = Inl e" by blast
    then show ?thesis by (auto simp: fetched_context_def)
  qed
  show ?thesis
    using ne ph
    by (auto simp: ask_completion_calls [OF assms(1,2)] build_messages_def findall_strip)
qed

theorem url_gives_context_message_witness:
  "map_of [(ascii ''query'', JStr one_link_query)] (ascii ''query'') = Some (JStr one_link_query) \<and>
   strip one_link_query \<noteq> [] \<and> contains_url one_link_query \<and>
   (\<forall>x. \<exists>e. fetch_body offline_env x = Inl e) \<and>
   (\<exists>u. completion_calls (snd (ask keyed_config offline_env (JDict [(ascii ''query'', JStr one_link_query)]))) =
     [[\<lparr>role = ascii ''system'', content = SYSTEM_PROMPT\<rparr>,
       \<lparr>role = ascii ''system'',
        content = context_instruction @ fetch_error_prefix @ ascii ''ConnectError'' @ ascii '')''\<rparr>,
       u]])"
proof -
  have h1: "map_of [(ascii ''query'', JStr one_link_query)] (ascii ''query'') = Some (JStr one_link_query)"
    by simp
  have h2: "strip one_link_query \<noteq> []"
    by (simp add: one_link_query_strip ascii_def)
  have fl: "findall one_link_query = [ascii ''http://x.y'']"
    using findall_strip [of one_link_query] by (simp add: one_link_query_strip findall_one_link)
  have h3: "contains_url one_link_query"
    using findall_empty_iff [of one_link_query] by (simp add: fl)
  have h4: "\<forall>x. \<exists>e. fetch_body offline_env x = Inl e"
    by (simp add: fetch_body_def offline_env_def)
  have f: "fetched_context offline_env x = fetch_error_prefix @ ascii ''ConnectError'' @ ascii '')''" for x
    by (simp add: fetched_context_def fetch_body_def offline_env_def)
  show ?thesis
    using h1 h2 h3 h4 url_gives_context_message [OF h1 h2 h3, of offline_env keyed_config]
    by (auto simp: fl f)
qed

text \<open>
  Claim C5. For a non-empty query the prompt holds exactly one message of role \<open>user\<close>,
  the last one. Its content is the summarization instruction followed by the query when
  \<open>mode\<close> is \<open>summarize\<close>, the code instruction followed by the query when \<open>mode\<close> is
  \<open>code\<close>, and the query itself for every other value of \<open>mode\<close>, an absent one
  included. For one query the three contents differ pairwise.
\<close>

theorem user_message_by_mode:
  assumes "map_of kvs (ascii ''query'') = Some (JStr q)" and "strip q \<noteq> []"
  shows "\<exists>ms u. completion_calls (snd (ask cfg env (JDict kvs))) = [ms] \<and>
     filter (\<lambda>m. role m = ascii ''user'') ms = [u] \<and> last ms = u \<and>
     (map_of kvs (ascii ''mode'') = Some (JStr (ascii ''summarize'')) \<longrightarrow>
        content u = summarize_instruction @ strip q) \<and>
     (map_of kvs (ascii ''mode'') = Some (JStr (ascii ''code'')) \<longrightarrow>
        content u = code_instruction @ strip q) \<and>
     (map_of kvs (ascii ''mode'') \<noteq> Some (JStr (ascii ''summarize'')) \<and>
      map_of kvs (ascii ''mode'') \<noteq> Some (JStr (ascii ''code'')) \<longrightarrow>
        content u = strip q) \<and>
     summarize_instruction @ strip q \<noteq> code_instruction @ strip q \<and>
     summarize_instruction @ strip q \<noteq> strip q \<and>
     code_instruction @ strip q \<noteq> strip q"
proof -
  have d1: "summarize_instruction @ strip q \<noteq> code_instruction @ strip q"
    by (simp add: summarize_instruction_def code_instruction_def)
  have d2: "summarize_instruction @ strip q \<noteq> strip q"
    by (simp add: summarize_instruction_def)
  have d3: "code_instruction @ strip q \<noteq> strip q"
    by (simp add: code_instruction_def)
  have sc: "ascii ''summarize'' \<noteq> ascii ''code''" "ascii ''auto'' \<noteq> ascii ''code''"
    "ascii ''auto'' \<noteq> ascii ''summarize''"
    by (simp_all add: ascii_def)
  show ?thesis
    using d1 d2 d3 sc
    by (auto simp: ask_completion_calls [OF assms] build_messages_def mode_of_def
        role_system_not_user split: option.splits)
qed

theorem user_message_by_mode_witness:
  "strip plain_query \<noteq> [] \<and>
   (\<exists>ms u. completion_calls (snd (ask keyless_config offline_env
        (JDict [(ascii ''query'', JStr plain_query), (ascii ''mode'', JStr (ascii ''summarize''))]))) = [ms] \<and>
      last ms = u \<and> content u = summarize_instruction @ ascii ''hello world'') \<and>
   (\<exists>ms u. completion_calls (snd (ask keyless_config offline_env
        (JDict [(ascii ''query'', JStr plain_query), (ascii ''mode'', JStr (ascii ''code''))]))) = [ms] \<and>
      last ms = u \<and> content u = code_instruction @ ascii ''hello world'') \<and>
   (\<exists>ms u. completion_calls (snd (ask keyless_config offline_env
        (JDict [(ascii ''query'', JStr plain_query)]))) = [ms] \<and>
      last ms = u \<and> content u = ascii ''hello world'')"
proof -
  have h2: "strip plain_query \<noteq> []"
    by (simp add: plain_query_strip ascii_def)
  have a1: "map_of [(ascii ''query'', JStr plain_query), (ascii ''mode'', JStr (ascii ''summarize''))]
      (ascii ''query'') = Some (JStr plain_query)"
    by simp
  have a2: "map_of [(ascii ''query'', JStr plain_query), (ascii ''mode'', JStr (ascii ''code''))]
      (ascii ''query'') = Some (JStr plain_query)"
    by simp
  have a3: "map_of [(ascii ''query'', JStr plain_query)] (ascii ''query'') = Some (JStr plain_query)"
    by simp
  have ne: "ascii ''summarize'' \<noteq> ascii ''code''"
    by (simp add: ascii_def)
  have c1: "\<exists>ms u. completion_calls (snd (ask keyless_config offline_env
        (JDict [(ascii ''query'', JStr plain_query), (ascii ''mode'', JStr (ascii ''summarize''))]))) = [ms] \<and>
      last ms = u \<and> content u = summarize_instruction @ ascii ''hello world''"
    using user_message_by_mode [OF a1 h2, where cfg = keyless_config and env = offline_env]
    by (simp add: plain_query_strip mode_not_query) blast
  have c2: "\<exists>ms u. completion_calls (snd (ask keyless_config offline_env
        (JDict [(ascii ''query'', JStr plain_query), (ascii ''mode'', JStr (ascii ''code''))]))) = [ms] \<and>
      last ms = u \<and> content u = code_instruction @ ascii ''hello world''"
    using user_message_by_mode [OF a2 h2, where cfg = keyless_config and env = offline_env]
    by (simp add: plain_query_strip mode_not_query) blast
  have c3: "\<exists>ms u. completion_calls (snd (ask keyless_config offline_env
        (JDict [(ascii ''query'', JStr plain_query)]))) = [ms] \<and>
      last ms = u \<and> content u = ascii ''hello world''"
    using user_message_by_mode [OF a3 h2, where cfg = keyless_config and env = offline_env]
    by (simp add: plain_query_strip mode_not_query) blast
  from h2 c1 c2 c3 show ?thesis by blast
qed

section \<open>Errors of the completion service\<close>

text \<open>
  Claim C4. With a credential configured and a non-empty query, the handler posts once to
  the completions endpoint. If that request ends in a transport failure, or returns a
  status outside 200 to 299, the handler does not return a response: the exception
  itself (the transport error, or the status error of \<open>raise_for_status\<close>) leaves the
  handler.
\<close>

theorem completion_error_propagates:
  assumes "map_of kvs (ascii ''query'') = Some (JStr q)" and "strip q \<noteq> []"
    and "OPENAI_API_KEY cfg \<noteq> []"
  shows "\<exists>ms url auth.
     url = OPENAI_BASE_URL cfg @ ascii ''/chat/completions'' \<and>
     auth = ascii ''Bearer '' @ OPENAI_API_KEY cfg \<and>
     http_posts (snd (ask cfg env (JDict kvs))) = [HttpPost url auth (OPENAI_MODEL cfg) ms] \<and>
     (\<forall>e. http_post env url auth (OPENAI_MODEL cfg) ms = Inl e \<longrightarrow>
          fst (ask cfg env (JDict kvs)) = Inl e) \<and>
     (\<forall>r. http_post env url auth (OPENAI_MODEL cfg) ms = Inr r \<and> \<not> is_success r \<longrightarrow>
          fst (ask cfg env (JDict kvs)) = Inl (HTTPStatusError (status_code r)))"
  using assms(3)
  by (simp add: ask_nonempty [OF assms(1,2)] Let_def trace_append fetch_trace
      call_openai_def raise_for_status_def is_success_def)

theorem completion_error_propagates_witness:
  "map_of [(ascii ''query'', JStr plain_query)] (ascii ''query'') = Some (JStr plain_query) \<and>
   strip plain_query \<noteq> [] \<and> OPENAI_API_KEY keyed_config \<noteq> [] \<and>
   fst (ask keyed_config offline_env (JDict [(ascii ''query'', JStr plain_query)])) =
     Inl (LibraryError (ascii ''ConnectError'')) \<and>
   fst (ask keyed_config refusing_env (JDict [(ascii ''query'', JStr plain_query)])) =
     Inl (HTTPStatusError 500)"
proof -
  have h1: "map_of [(ascii ''query'', JStr plain_query)] (ascii ''query'') = Some (JStr plain_query)"
    by simp
  have h2: "strip plain_query \<noteq> []"
    by (simp add: plain_query_strip ascii_def)
  have h3: "OPENAI_API_KEY keyed_config \<noteq> []"
    by (simp add: keyed_config_def ascii_def)
  have a: "fst (ask keyed_config offline_env (JDict [(ascii ''query'', JStr plain_query)])) =
     Inl (LibraryError (ascii ''ConnectError''))"
    using completion_error_propagates [OF h1 h2 h3, where env = offline_env]
    by (auto simp: offline_env_def)
  have b: "fst (ask keyed_config refusing_env (JDict [(ascii ''query'', JStr plain_query)])) =
     Inl (HTTPStatusError 500)"
    using completion_error_propagates [OF h1 h2 h3, where env = refusing_env]
    by (auto simp: refusing_env_def is_success_def)
  from h1 h2 h3 a b show ?thesis by simp
qed

section \<open>The keyless answer\<close>




end
